theory Spec2Isabelle
  imports Main "HOL-Library.Word" "HOL-Library.Signed_Division"
begin

section \<open>The list monad of monadplay.cc\<close>

text \<open>
  The program works on \<^verbatim>\<open>std::list<X>\<close>, modelled as \<^typ>\<open>'a list\<close>:
  \<^verbatim>\<open>empty()\<close> is \<open>x = []\<close>, \<^verbatim>\<open>front()\<close> is \<^const>\<open>hd\<close>,
  \<^verbatim>\<open>pop_front()\<close> is \<^const>\<open>tl\<close> and \<^verbatim>\<open>y.splice(y.end(), z)\<close> is \<open>y @ z\<close>.
  \<^verbatim>\<open>int64_t\<close> is a 64-bit word whose arithmetic wraps around; \<^verbatim>\<open>size_t\<close> is taken
  to be 64 bits wide as well (LP64), so the mixed expressions of \<^verbatim>\<open>main\<close>, which C++
  evaluates in the unsigned type, are word arithmetic too.
\<close>

type_synonym int64 = "64 word"
type_synonym size_t = "64 word"

subsection \<open>Step 1: unit\<close>

text \<open>\<^verbatim>\<open>std::list<X> unit(X const & x) { return std::list<X>{x}; }\<close>\<close>

definition unit :: "'a \<Rightarrow> 'a list" where
  "unit x = [x]"

subsection \<open>Step 2: prod\<close>

text \<open>
  \<^verbatim>\<open>
  std::result_of_t<F(X)> prod(F f, std::list<X> x) {
      return (x.empty())
          ? std::result_of_t<F(X)>{}
          : [&]() { std::result_of_t<F(X)> y{ f(x.front()) };
                    x.pop_front();
                    y.splice(y.end(), prod(f,x));
                    return y;
                  } ();
  }
  \<close>
  The value computed by the call. The parameter \<open>x\<close> is the function's own list; the
  local names \<open>x'\<close> and \<open>y'\<close> are \<open>x\<close> after \<^verbatim>\<open>pop_front\<close> and \<open>y\<close> after the splice.
\<close>

fun prod_l :: "('a \<Rightarrow> 'b list) \<Rightarrow> 'a list \<Rightarrow> 'b list" where
  "prod_l f x =
     (if x = [] then []
      else (let y = f (hd x);
                x' = tl x;
                y' = y @ prod_l f x'
            in y'))"

declare prod_l.simps [simp del]

text \<open>
  The same function with the memory it works on made explicit. The objects of type
  \<^verbatim>\<open>std::list<X>\<close> that are alive form a stack, \<open>heap\<close>; an object is named by its
  position. \<^verbatim>\<open>prod\<close> takes its second parameter by value: a call on the object at
  address \<open>a\<close> copy-constructs the parameter, a new object at address \<open>p\<close> on top of the
  stack; the body reads and pops that object only, the recursive call \<^verbatim>\<open>prod(f,x)\<close>
  passes it on (by value again), and the parameter is destroyed on return. \<open>calls\<close>
  logs the arguments \<open>f\<close> is invoked on, in order. \<open>f\<close> itself is a pure function, as
  every function object of the program is.
\<close>

record 'a mem =
  heap :: "'a list list"
  calls :: "'a list"

function prod_op :: "('a \<Rightarrow> 'b list) \<Rightarrow> nat \<Rightarrow> 'a mem \<Rightarrow> 'b list \<times> 'a mem" where
  "prod_op f a m =
     (let p = length (heap m);
          m1 = m\<lparr>heap := heap m @ [heap m ! a]\<rparr>
      in if heap m1 ! p = [] then ([], m1\<lparr>heap := butlast (heap m1)\<rparr>)
         else (let v = hd (heap m1 ! p);
                   y = f v;
                   m2 = m1\<lparr>calls := calls m1 @ [v]\<rparr>;
                   m3 = m2\<lparr>heap := (heap m2)[p := tl (heap m2 ! p)]\<rparr>;
                   (r, m4) = prod_op f p m3
               in (y @ r, m4\<lparr>heap := butlast (heap m4)\<rparr>)))"
  by pat_completeness auto
termination
  by (relation "measure (\<lambda>(f, a, m). length (heap m ! a))") (auto simp: nth_append)

declare prod_op.simps [simp del]

subsection \<open>Steps 4 to 6: join, fmap, foldl\<close>

text \<open>\<^verbatim>\<open>return prod([](auto y) { return y; }, x);\<close>\<close>

definition join :: "'a list list \<Rightarrow> 'a list" where
  "join x = prod_l (\<lambda>y. y) x"

text \<open>
  \<^verbatim>\<open>
  template<typename F, typename X>
  std::list<X> fmap(F f, std::list<X> const & x) {
      return prod([=](auto y) { return unit(f(y)); }, x);
  }
  \<close>
  The return type is \<^verbatim>\<open>std::list<X>\<close>, the type of the argument: \<open>f\<close> maps \<open>X\<close> to \<open>X\<close>.
\<close>

definition fmap :: "('a \<Rightarrow> 'a) \<Rightarrow> 'a list \<Rightarrow> 'a list" where
  "fmap f x = prod_l (\<lambda>y. unit (f y)) x"

text \<open>\<^verbatim>\<open>fmap\<close> on the object at address \<open>a\<close>: the reference is passed on to \<^verbatim>\<open>prod\<close>.\<close>

definition fmap_op :: "('a \<Rightarrow> 'a) \<Rightarrow> nat \<Rightarrow> 'a mem \<Rightarrow> 'a list \<times> 'a mem" where
  "fmap_op f a m = prod_op (\<lambda>y. unit (f y)) a m"

text \<open>\<^verbatim>\<open>for(auto && i : m) y = f(y, i); return y;\<close>\<close>

fun foldl_l :: "('b \<Rightarrow> 'a \<Rightarrow> 'b) \<Rightarrow> 'a list \<Rightarrow> 'b \<Rightarrow> 'b" where
  "foldl_l f [] y = y"
| "foldl_l f (i # m) y = foldl_l f m (f y i)"

section \<open>The program\<close>

subsection \<open>Tasks 1 to 3: the sequence, the two endofunctors and the three laws\<close>

text \<open>
  \<^verbatim>\<open>std::list<int64_t> ls(100); std::iota(ls.begin(), ls.end(), 0);\<close>
  \<open>iota_l v n\<close> is what \<^verbatim>\<open>std::iota\<close> leaves in a list of \<open>n\<close> places: it stores
  the value and increments it, place after place. \<open>ls_init\<close> is the sequence \<open>ls\<close> of
  the program.
\<close>

fun iota_l :: "'a::{one,plus} \<Rightarrow> nat \<Rightarrow> 'a list" where
  "iota_l v 0 = []"
| "iota_l v (Suc n) = v # iota_l (v + 1) n"

definition ls_init :: "int64 list" where
  "ls_init = iota_l 0 100"

text \<open>
  \<^verbatim>\<open>auto f = [](int64_t x) { return unit(x * x); };\<close>
  \<^verbatim>\<open>auto g = [](int64_t x) { return unit(x + x); };\<close>
\<close>

definition f_endo :: "int64 \<Rightarrow> int64 list" where
  "f_endo x = unit (x * x)"

definition g_endo :: "int64 \<Rightarrow> int64 list" where
  "g_endo x = unit (x + x)"

text \<open>\<^verbatim>\<open>return prod(f, unit(x)) == f(x);\<close>\<close>

definition law1 :: "int64 \<Rightarrow> bool" where
  "law1 x = (prod_l f_endo (unit x) = f_endo x)"

text \<open>\<^verbatim>\<open>return prod(static_cast<U>(&unit), unit(x)) == std::list<int64_t>{x};\<close>\<close>

definition law2 :: "int64 \<Rightarrow> bool" where
  "law2 x = (prod_l unit (unit x) = [x])"

text \<open>
  \<^verbatim>\<open>return prod(f, prod(g, unit(x))) == prod([=](auto x) { return prod(f,g(x)); }, unit(x));\<close>
\<close>

definition law3 :: "int64 \<Rightarrow> bool" where
  "law3 x = (prod_l f_endo (prod_l g_endo (unit x))
               = prod_l (\<lambda>x. prod_l f_endo (g_endo x)) (unit x))"

text \<open>\<^verbatim>\<open>return s && law1(x) && law2(x) && law3(x);\<close>\<close>

definition laws_check :: "bool \<Rightarrow> int64 \<Rightarrow> bool" where
  "laws_check s x = (s \<and> law1 x \<and> law2 x \<and> law3 x)"

subsection \<open>Task 4: the arithmetic demonstration\<close>

text \<open>
  The generic lambdas \<^verbatim>\<open>sum\<close>, \<^verbatim>\<open>dif\<close>, \<^verbatim>\<open>sqr\<close>, \<^verbatim>\<open>par\<close> and \<^verbatim>\<open>dot\<close> are
  polymorphic; \<^verbatim>\<open>sn1\<close> and \<^verbatim>\<open>sn2\<close> are only applied to \<^verbatim>\<open>ls.size()-1\<close>, a
  \<^verbatim>\<open>size_t\<close>, where \<^verbatim>\<open>/\<close> is unsigned division.
\<close>

definition sum_l :: "'a::plus \<Rightarrow> 'a \<Rightarrow> 'a" where
  "sum_l x y = x + y"

definition dif :: "'a::minus \<Rightarrow> 'a \<Rightarrow> 'a" where
  "dif x y = x - y"

definition sqr :: "'a::times \<Rightarrow> 'a" where
  "sqr x = x * x"

definition sn1 :: "size_t \<Rightarrow> size_t" where
  "sn1 x = x * (x + 1) div 2"

definition sn2 :: "size_t \<Rightarrow> size_t" where
  "sn2 x = x * (x + 1) * (2 * x + 1) div 6"

definition par :: "('a \<Rightarrow> 'b \<Rightarrow> 'c) \<Rightarrow> 'b \<Rightarrow> 'a \<Rightarrow> 'c" where
  "par x y = (\<lambda>z. x z y)"

definition dot :: "('b \<Rightarrow> 'c) \<Rightarrow> ('a \<Rightarrow> 'b) \<Rightarrow> 'a \<Rightarrow> 'c" where
  "dot x y = (\<lambda>z. x (y z))"

text \<open>\<^verbatim>\<open>ls.size()\<close>\<close>

definition size_l :: "'a list \<Rightarrow> size_t" where
  "size_l x = of_nat (length x)"

text \<open>
  \<^verbatim>\<open>/\<close> on \<^verbatim>\<open>int64_t\<close> operands: the quotient of the signed values, truncated
  towards zero.
\<close>

definition sdiv64 :: "int64 \<Rightarrow> int64 \<Rightarrow> int64" where
  "sdiv64 x y = word_of_int (sint x sdiv sint y)"

text \<open>
  The arithmetic of \<^verbatim>\<open>int64_t\<close> with overflow detected: a value is an integer of
  the signed 64-bit range, or the mark that some operation left that range, which
  every later operation keeps. The generic lambdas and the three sums below are the
  same at this type as at \<^typ>\<open>int64\<close>; running them here tells whether the program's
  signed arithmetic overflows anywhere.
\<close>

datatype checked = Exact int | Overflow

definition ck :: "int \<Rightarrow> checked" where
  "ck i = (if - (2 ^ 63) \<le> i \<and> i < 2 ^ 63 then Exact i else Overflow)"

instantiation checked :: "{zero, one, plus, minus, times}"
begin

definition zero_checked :: checked where
  "zero_checked = Exact 0"

definition one_checked :: checked where
  "one_checked = Exact 1"

definition plus_checked :: "checked \<Rightarrow> checked \<Rightarrow> checked" where
  "plus_checked a b = (case (a, b) of (Exact x, Exact y) \<Rightarrow> ck (x + y) | _ \<Rightarrow> Overflow)"

definition minus_checked :: "checked \<Rightarrow> checked \<Rightarrow> checked" where
  "minus_checked a b = (case (a, b) of (Exact x, Exact y) \<Rightarrow> ck (x - y) | _ \<Rightarrow> Overflow)"

definition times_checked :: "checked \<Rightarrow> checked \<Rightarrow> checked" where
  "times_checked a b = (case (a, b) of (Exact x, Exact y) \<Rightarrow> ck (x * y) | _ \<Rightarrow> Overflow)"

instance ..

end

text \<open>
  \<^verbatim>\<open>auto dx_sqr = [&](auto x, auto l) { return fmap(dot(sqr,par(dif,x)), l); };\<close>
  The list \<open>l\<close> is the lambda's own copy.
\<close>

definition dx_sqr :: "'a::{minus,times} \<Rightarrow> 'a list \<Rightarrow> 'a list" where
  "dx_sqr x l = fmap (dot sqr (par dif x)) l"

text \<open>
  The three sums take the sequence by reference (\<^verbatim>\<open>auto & x\<close>), here the address \<open>a\<close>
  of the object. The type of the elements and of the accumulator, \<^verbatim>\<open>int64_t\<close> in the
  program, is a parameter, so that the sums can be run in the checked arithmetic too;
  \<^verbatim>\<open>int64_t{}\<close> is its zero.
  \<^verbatim>\<open>return foldl(sum,fmap(sqr,x),int64_t{});\<close>
\<close>

definition sigma_squares :: "nat \<Rightarrow> 'a::{zero,plus,times} mem \<Rightarrow> 'a \<times> 'a mem" where
  "sigma_squares a m = (let (r, m') = fmap_op sqr a m in (foldl_l sum_l r 0, m'))"

text \<open>\<^verbatim>\<open>return sqr(foldl(sum,x, int64_t{}));\<close>\<close>

definition sigma_sqr :: "nat \<Rightarrow> 'a::{zero,plus,times} mem \<Rightarrow> 'a \<times> 'a mem" where
  "sigma_sqr a m = (sqr (foldl_l sum_l (heap m ! a) 0), m)"

text \<open>
  \<^verbatim>\<open>return foldl(sum,prod(par(dx_sqr,x),x), int64_t{});\<close>
  \<^verbatim>\<open>par\<close> takes its arguments by value: the closure holds a copy of the sequence.
\<close>

definition sigma_dx2 :: "nat \<Rightarrow> 'a::{zero,plus,minus,times} mem \<Rightarrow> 'a \<times> 'a mem" where
  "sigma_dx2 a m =
     (let (r, m') = prod_op (par dx_sqr (heap m ! a)) a m in (foldl_l sum_l r 0, m'))"

text \<open>
  A call of \<^verbatim>\<open>printf\<close> is its format string and its arguments; the output of the
  program is the list of the calls made.
\<close>

datatype arg = ArgD size_t | ArgS string

type_synonym printf_call = "string \<times> arg list"

text \<open>
  \<^verbatim>\<open>
  printf("Sum of doubles of integer sequence 0,1,2,3,...,%d test: %s\n"
        , ls.size() - 1
        , foldl(sum, prod(g, ls), int64_t{}) == 2*sn1(ls.size()-1)
              ? "true" : "false" );
  \<close>
  \<open>ls\<close> is the object at address 0.
\<close>

definition check_doubles :: "int64 mem \<Rightarrow> bool \<times> int64 mem" where
  "check_doubles m =
     (let (r, m') = prod_op g_endo 0 m
      in (foldl_l sum_l r 0 = 2 * sn1 (size_l (heap m' ! 0) - 1), m'))"

definition demo_doubles :: "int64 mem \<Rightarrow> printf_call \<times> int64 mem" where
  "demo_doubles m =
     (let (t, m') = check_doubles m
      in ((''Sum of doubles of integer sequence 0,1,2,3,...,%d test: %s\<newline>'',
           [ArgD (size_l (heap m' ! 0) - 1), ArgS (if t then ''true'' else ''false'')]), m'))"

text \<open>
  \<^verbatim>\<open>
  printf("Sum of squares of integer sequence 0,1,2,3,...,%d test: %s\n"
        , ls.size() - 1
        , foldl(sum, prod(f, ls), int64_t{}) == sn2(ls.size()-1)
              ? "true" : "false" );
  \<close>
\<close>

definition check_squares :: "int64 mem \<Rightarrow> bool \<times> int64 mem" where
  "check_squares m =
     (let (r, m') = prod_op f_endo 0 m
      in (foldl_l sum_l r 0 = sn2 (size_l (heap m' ! 0) - 1), m'))"

definition demo_squares :: "int64 mem \<Rightarrow> printf_call \<times> int64 mem" where
  "demo_squares m =
     (let (t, m') = check_squares m
      in ((''Sum of squares of integer sequence 0,1,2,3,...,%d test: %s\<newline>'',
           [ArgD (size_l (heap m' ! 0) - 1), ArgS (if t then ''true'' else ''false'')]), m'))"

text \<open>
  \<^verbatim>\<open>
  printf( "Sum of squares vs square of sums (provided no overflow): %s\n\n"
        , (ls.size() * sigma_squares(ls) - sigma_sqr(ls) == sigma_dx2(ls) / 2)
              ? "true" : "false (you overflowed it!)" );
  \<close>
\<close>

definition check_pairs :: "int64 mem \<Rightarrow> bool \<times> int64 mem" where
  "check_pairs m =
     (let (ssq, m1) = sigma_squares 0 m;
          (sqs, m2) = sigma_sqr 0 m1;
          (sdx, m3) = sigma_dx2 0 m2
      in (size_l (heap m3 ! 0) * ssq - sqs = sdiv64 sdx 2, m3))"

definition demo_pairs :: "int64 mem \<Rightarrow> printf_call \<times> int64 mem" where
  "demo_pairs m =
     (let (t, m') = check_pairs m
      in ((''Sum of squares vs square of sums (provided no overflow): %s\<newline>\<newline>'',
           [ArgS (if t then ''true'' else ''false (you overflowed it!)'')]), m'))"

definition demo :: "int64 mem \<Rightarrow> printf_call list \<times> int64 mem" where
  "demo m =
     (let (l1, m1) = demo_doubles m;
          (l2, m2) = demo_squares m1;
          (l3, m3) = demo_pairs m2
      in ([l1, l2, l3], m3))"

text \<open>
  \<^verbatim>\<open>
  if(foldl(laws_check, ls, true)) {
      printf("\nleft identity, right identity, associativity laws valid.\n");
      printf("... so, it is a monad after all!\n");
      printf("... so, we can now start playing and pay the consequences!\n");
  }
  \<close>
\<close>

definition confirmation :: "printf_call list" where
  "confirmation =
     [(''\<newline>left identity, right identity, associativity laws valid.\<newline>'', []),
      (''... so, it is a monad after all!\<newline>'', []),
      (''... so, we can now start playing and pay the consequences!\<newline>'', [])]"

text \<open>
  The result of a run: what was printed, and the value \<^verbatim>\<open>main\<close> returns.
  \<open>main_from b m\<close> is \<^verbatim>\<open>main\<close> from the \<^verbatim>\<open>if\<close> on, where \<open>b\<close> is the value of
  its condition and \<open>m\<close> the memory, with \<open>ls\<close> at address 0. The last statement is
  \<^verbatim>\<open>return {};\<close>, the \<^verbatim>\<open>int\<close> 0.
\<close>

record run =
  printed :: "printf_call list"
  exit_code :: int

definition main_from :: "bool \<Rightarrow> int64 mem \<Rightarrow> run \<times> int64 mem" where
  "main_from b m =
     (let out = (if b then confirmation else []);
          (out', m') = demo m
      in (\<lparr>printed = out @ out', exit_code = 0\<rparr>, m'))"

definition mem_init :: "int64 mem" where
  "mem_init = \<lparr>heap = [ls_init], calls = []\<rparr>"

text \<open>The same memory, with the sequence generated in the checked arithmetic.\<close>

definition mem_checked :: "checked mem" where
  "mem_checked = \<lparr>heap = [iota_l 0 100], calls = []\<rparr>"

definition main :: "run \<times> int64 mem" where
  "main = (let m = mem_init in main_from (foldl_l laws_check (heap m ! 0) True) m)"

section \<open>Properties of prod\<close>

lemma prod_l_Nil [simp]: "prod_l f [] = []"
  by (simp add: prod_l.simps)

lemma prod_l_Cons [simp]: "prod_l f (x # xs) = f x @ prod_l f xs"
  by (subst prod_l.simps) simp

lemma prod_l_concat: "prod_l f xs = concat (map f xs)"
  by (induction xs) simp_all

lemma prod_l_append: "prod_l f (xs @ ys) = prod_l f xs @ prod_l f ys"
  by (induction xs) simp_all

lemma prod_op_mk:
  "a < length h \<Longrightarrow>
   prod_op f a \<lparr>heap = h, calls = c\<rparr> = (prod_l f (h ! a), \<lparr>heap = h, calls = c @ h ! a\<rparr>)"
proof (induction "h ! a" arbitrary: a h c)
  case Nil
  then show ?case
    by (subst prod_op.simps) (simp add: nth_append Let_def)
next
  case (Cons x xs)
  have "xs = (h @ [xs]) ! length h" by simp
  from Cons(1)[OF this, of "c @ [x]"] have IH:
    "prod_op f (length h) \<lparr>heap = h @ [xs], calls = c @ [x]\<rparr>
       = (prod_l f xs, \<lparr>heap = h @ [xs], calls = c @ x # xs\<rparr>)"
    by simp
  show ?case
    using Cons(2)[symmetric] Cons(3)
    by (subst prod_op.simps) (simp add: nth_append Let_def IH)
qed

lemma prod_op_eq:
  "a < length (heap m) \<Longrightarrow>
   prod_op f a m = (prod_l f (heap m ! a), m\<lparr>calls := calls m @ heap m ! a\<rparr>)"
  by (cases m) (simp add: prod_op_mk)

section \<open>The generated sequence and its sums\<close>

lemma iota_l_map: "iota_l v n = map (\<lambda>i. v + of_nat i) [0..<n]" for v :: int64
proof (induction n arbitrary: v)
  case 0
  show ?case by simp
next
  case (Suc n)
  have "map (\<lambda>i. v + of_nat i) [0..<Suc n] = v # map (\<lambda>i. v + 1 + of_nat i) [0..<n]"
    by (simp add: upt_rec[of 0] map_Suc_upt[symmetric] del: upt_Suc add: add.assoc)
  then show ?case using Suc by simp
qed

lemma ls_init_map: "ls_init = map of_nat [0..<100]"
  by (simp add: ls_init_def iota_l_map)

lemma fmap_map: "fmap f xs = map f xs"
  by (induction xs) (simp_all add: fmap_def unit_def)

lemma foldl_l_sum: "foldl_l sum_l xs (a :: 'a :: monoid_add) = a + sum_list xs"
  by (induction xs arbitrary: a) (simp_all add: sum_l_def add.assoc)

lemma gauss1: "2 * (\<Sum>i\<leftarrow>[0..<n]. int i) = int n * (int n - 1)"
  by (induction n) (simp_all add: algebra_simps)

lemma gauss2: "6 * (\<Sum>i\<leftarrow>[0..<n]. int i * int i) = int n * (int n - 1) * (2 * int n - 1)"
  by (induction n) (simp_all add: algebra_simps)

lemma n1: "(\<Sum>i\<leftarrow>[0..<100]. int i * int i) = 328350"
  using gauss2[of 100] by simp

lemma n2: "(\<Sum>i\<leftarrow>[0..<100]. int i) = 4950"
  using gauss1[of 100] by simp

lemma sum_list_of_int:
  "sum_list (map (\<lambda>i. of_int (h i)) xs) = (of_int (sum_list (map h xs)) :: 'a :: ring_1)"
  by (induction xs) simp_all

lemma w1: "sum_list ls_init = 4950"
proof -
  have "sum_list ls_init = (of_int (\<Sum>i\<leftarrow>[0..<100]. int i) :: int64)"
    unfolding ls_init_map sum_list_of_int[symmetric] by simp
  then show ?thesis by (simp only: n2) simp
qed

lemma w2: "sum_list (map (\<lambda>x. x * x) ls_init) = 328350"
proof -
  have "sum_list (map (\<lambda>x. x * x) ls_init) = (of_int (\<Sum>i\<leftarrow>[0..<100]. int i * int i) :: int64)"
    unfolding ls_init_map sum_list_of_int[symmetric] by (simp add: o_def)
  then show ?thesis by (simp only: n1) simp
qed

lemma w3: "sum_list (map (\<lambda>x. x + x) ls_init) = 9900"
proof -
  have "sum_list (map (\<lambda>x. x + x) xs) = 2 * sum_list xs" for xs :: "int64 list"
    by (induction xs) simp_all
  then show ?thesis by (simp add: w1)
qed

lemma sum_list_concat': "sum_list (concat xss) = sum_list (map sum_list xss)"
  by (induction xss) simp_all

lemma sum_sq_diff:
  fixes z :: "'a :: comm_ring_1"
  shows "sum_list (map (\<lambda>w. (w - z) * (w - z)) ws)
       = sum_list (map (\<lambda>w. w * w) ws) - 2 * z * sum_list ws + of_nat (length ws) * (z * z)"
  by (induction ws) (simp_all add: algebra_simps)

lemma pair_sum:
  fixes xs :: "'a :: comm_ring_1 list"
  shows "sum_list (concat (map (\<lambda>z. map (\<lambda>w. (w - z) * (w - z)) xs) xs))
       = 2 * (of_nat (length xs) * sum_list (map (\<lambda>w. w * w) xs) - sum_list xs * sum_list xs)"
proof -
  define A where "A = sum_list (map (\<lambda>w. w * w) xs)"
  define B where "B = sum_list xs"
  define n :: 'a where "n = of_nat (length xs)"
  have "sum_list (map (\<lambda>z. A - 2 * z * B + n * (z * z)) zs)
        = of_nat (length zs) * A - 2 * sum_list zs * B + n * sum_list (map (\<lambda>w. w * w) zs)" for zs
    by (induction zs) (simp_all add: algebra_simps)
  from this[of xs] show ?thesis
    unfolding sum_list_concat' map_map o_def sum_sq_diff A_def[symmetric] B_def[symmetric] n_def[symmetric]
    by (simp add: algebra_simps A_def B_def n_def)
qed


section \<open>The values the demonstration computes\<close>

lemma length_ls_init: "length ls_init = 100"
  by (simp add: ls_init_map)

lemma size_ls_init: "size_l ls_init = 100"
  by (simp add: size_l_def length_ls_init)

lemma prod_l_g: "prod_l g_endo xs = map (\<lambda>x. x + x) xs"
  by (induction xs) (simp_all add: g_endo_def unit_def)

lemma prod_l_f: "prod_l f_endo xs = map (\<lambda>x. x * x) xs"
  by (induction xs) (simp_all add: f_endo_def unit_def)

lemma doubles_val: "foldl_l sum_l (prod_l g_endo ls_init) 0 = 9900"
  by (simp only: prod_l_g foldl_l_sum w3) simp

lemma squares_val: "foldl_l sum_l (prod_l f_endo ls_init) 0 = 328350"
  by (simp only: prod_l_f foldl_l_sum w2) simp

lemma check_doubles_init:
  "check_doubles \<lparr>heap = [ls_init], calls = c\<rparr> = (True, \<lparr>heap = [ls_init], calls = c @ ls_init\<rparr>)"
  by (simp add: check_doubles_def prod_op_mk doubles_val size_ls_init sn1_def)

lemma check_squares_init:
  "check_squares \<lparr>heap = [ls_init], calls = c\<rparr> = (True, \<lparr>heap = [ls_init], calls = c @ ls_init\<rparr>)"
  by (simp add: check_squares_def prod_op_mk squares_val size_ls_init sn2_def)

lemma sigma_squares_val:
  fixes xs :: "'a :: comm_ring_1 list"
  shows "sigma_squares 0 \<lparr>heap = xs # h, calls = c\<rparr>
     = (sum_list (map (\<lambda>x. x * x) xs), \<lparr>heap = xs # h, calls = c @ xs\<rparr>)"
  by (simp add: sigma_squares_def fmap_op_def prod_op_mk foldl_l_sum
      fmap_def[symmetric] fmap_map sqr_def)

lemma sigma_sqr_val:
  fixes xs :: "'a :: comm_ring_1 list"
  shows "sigma_sqr 0 \<lparr>heap = xs # h, calls = c\<rparr>
     = (sum_list xs * sum_list xs, \<lparr>heap = xs # h, calls = c\<rparr>)"
  by (simp add: sigma_sqr_def foldl_l_sum sqr_def)

lemma sigma_dx2_val:
  fixes xs :: "int64 list"
  shows "sigma_dx2 0 \<lparr>heap = xs # h, calls = c\<rparr>
     = (2 * (size_l xs * sum_list (map (\<lambda>x. x * x) xs) - sum_list xs * sum_list xs),
        \<lparr>heap = xs # h, calls = c @ xs\<rparr>)"
  by (simp add: sigma_dx2_def prod_op_mk foldl_l_sum prod_l_concat par_def dx_sqr_def
      fmap_map dot_def sqr_def dif_def pair_sum size_l_def)

lemma check_pairs_init:
  "check_pairs \<lparr>heap = [ls_init], calls = c\<rparr>
     = (True, \<lparr>heap = [ls_init], calls = c @ ls_init @ ls_init\<rparr>)"
  by (simp add: check_pairs_def sigma_squares_val sigma_sqr_val sigma_dx2_val
      w1 w2 size_ls_init sdiv64_def signed_divide_int_def)

lemma demo_init:
  "demo \<lparr>heap = [ls_init], calls = c\<rparr>
     = ([(''Sum of doubles of integer sequence 0,1,2,3,...,%d test: %s\<newline>'',
           [ArgD 99, ArgS ''true'']),
         (''Sum of squares of integer sequence 0,1,2,3,...,%d test: %s\<newline>'',
           [ArgD 99, ArgS ''true'']),
         (''Sum of squares vs square of sums (provided no overflow): %s\<newline>\<newline>'',
           [ArgS ''true''])],
        \<lparr>heap = [ls_init], calls = c @ ls_init @ ls_init @ ls_init @ ls_init\<rparr>)"
  by (simp add: demo_def demo_doubles_def demo_squares_def demo_pairs_def
      check_doubles_init check_squares_init check_pairs_init size_ls_init)




section \<open>The demonstration in checked arithmetic\<close>

lemma ck_small: "\<bar>i\<bar> \<le> 9801 \<Longrightarrow> ck i = Exact i"
  unfolding ck_def by (simp, arith)

lemma iota_l_checked:
  "0 \<le> v \<Longrightarrow> v + int n < 2 ^ 63 \<Longrightarrow> iota_l (Exact v) n = map (\<lambda>i. Exact (v + int i)) [0..<n]"
proof (induction n arbitrary: v)
  case 0
  show ?case by simp
next
  case (Suc n)
  have step: "Exact v + 1 = Exact (v + 1)"
    using Suc.prems by (simp add: plus_checked_def one_checked_def ck_def)
  have "map (\<lambda>i. Exact (v + int i)) [0..<Suc n] = Exact v # map (\<lambda>i. Exact (v + 1 + int i)) [0..<n]"
    by (simp add: upt_rec[of 0] map_Suc_upt[symmetric] del: upt_Suc add: add.assoc)
  moreover have "iota_l (Exact (v + 1)) n = map (\<lambda>i. Exact (v + 1 + int i)) [0..<n]"
    using Suc.prems by (intro Suc.IH) simp_all
  ultimately show ?case by (simp add: step)
qed

lemma mem_checked_map: "mem_checked = \<lparr>heap = [map Exact (map int [0..<100])], calls = []\<rparr>"
  using iota_l_checked[of 0 100] by (simp add: mem_checked_def zero_checked_def o_def)

lemma foldl_l_checked:
  "\<forall>x \<in> set xs. 0 \<le> x \<Longrightarrow> 0 \<le> a \<Longrightarrow> a + sum_list xs < 2 ^ 63 \<Longrightarrow>
   foldl_l sum_l (map Exact xs) (Exact a) = Exact (a + sum_list xs)"
proof (induction xs arbitrary: a)
  case Nil
  show ?case by simp
next
  case (Cons x xs)
  have nn: "0 \<le> sum_list xs" using Cons.prems(1) by (simp add: sum_list_nonneg)
  have step: "sum_l (Exact a) (Exact x) = Exact (a + x)"
    using Cons.prems nn by (simp add: sum_l_def plus_checked_def ck_def)
  have "foldl_l sum_l (map Exact xs) (Exact (a + x)) = Exact (a + x + sum_list xs)"
    using Cons.prems by (intro Cons.IH) (simp_all add: add.assoc)
  then show ?case by (simp add: step add.assoc)
qed

lemma sqr_checked:
  assumes "\<bar>d\<bar> \<le> 99"
  shows "sqr (Exact d) = Exact (d * d)"
proof -
  have "\<bar>d\<bar> * \<bar>d\<bar> \<le> 99 * 99" using assms by (intro mult_mono) simp_all
  then have "\<bar>d * d\<bar> \<le> 9801" by (simp add: abs_mult_self_eq)
  then show ?thesis by (simp add: sqr_def times_checked_def ck_small)
qed

lemma dx_sqr_checked:
  assumes "\<forall>w \<in> set ws. \<bar>w - z\<bar> \<le> 99"
  shows "dx_sqr (Exact z) (map Exact ws) = map Exact (map (\<lambda>w. (w - z) * (w - z)) ws)"
proof -
  have "dot sqr (par dif (Exact z)) (Exact w) = Exact ((w - z) * (w - z))" if "w \<in> set ws" for w
  proof -
    have b: "\<bar>w - z\<bar> \<le> 99" using assms that by simp
    then have "dif (Exact w) (Exact z) = Exact (w - z)"
      by (simp add: dif_def minus_checked_def ck_small)
    then show ?thesis using sqr_checked[OF b] by (simp add: dot_def par_def)
  qed
  then show ?thesis by (simp add: dx_sqr_def fmap_map)
qed

lemma sigma_squares_checked:
  assumes "\<forall>x \<in> set xs. \<bar>x\<bar> \<le> 99" and "(\<Sum>x\<leftarrow>xs. x * x) < 2 ^ 63"
  shows "fst (sigma_squares 0 \<lparr>heap = map Exact xs # h, calls = c\<rparr>) = Exact (\<Sum>x\<leftarrow>xs. x * x)"
proof -
  have "fmap sqr (map Exact xs) = map Exact (map (\<lambda>x. x * x) xs)"
    unfolding fmap_map using assms(1) by (simp add: sqr_checked)
  moreover have "foldl_l sum_l (map Exact (map (\<lambda>x. x * x) xs)) (Exact 0)
      = Exact (0 + sum_list (map (\<lambda>x. x * x) xs))"
    using assms(2) by (intro foldl_l_checked) simp_all
  ultimately show ?thesis
    by (simp add: sigma_squares_def fmap_op_def prod_op_mk fmap_def[symmetric] zero_checked_def)
qed

lemma sigma_sqr_checked:
  assumes "\<forall>x \<in> set xs. 0 \<le> x" and "sum_list xs \<le> 9801" and "sum_list xs * sum_list xs < 2 ^ 63"
  shows "fst (sigma_sqr 0 \<lparr>heap = map Exact xs # h, calls = c\<rparr>) = Exact (sum_list xs * sum_list xs)"
proof -
  have "foldl_l sum_l (map Exact xs) (Exact 0) = Exact (0 + sum_list xs)"
    using assms(1,2) by (intro foldl_l_checked) simp_all
  moreover have "- (2 ^ 63) \<le> sum_list xs * sum_list xs" 
    by (rule order_trans[OF _ zero_le_square]) simp
  ultimately show ?thesis
    using assms(3) by (simp add: sigma_sqr_def zero_checked_def sqr_def times_checked_def ck_def)
qed

lemma sigma_dx2_checked:
  assumes "\<forall>x \<in> set xs. 0 \<le> x \<and> x \<le> 99"
    and "sum_list (concat (map (\<lambda>z. map (\<lambda>w. (w - z) * (w - z)) xs) xs)) < 2 ^ 63"
  shows "fst (sigma_dx2 0 \<lparr>heap = map Exact xs # h, calls = c\<rparr>)
       = Exact (sum_list (concat (map (\<lambda>z. map (\<lambda>w. (w - z) * (w - z)) xs) xs)))"
proof -
  let ?sq = "concat (map (\<lambda>z. map (\<lambda>w. (w - z) * (w - z)) xs) xs)"
  have d: "par dx_sqr (map Exact xs) (Exact z) = map Exact (map (\<lambda>w. (w - z) * (w - z)) xs)"
    if z: "z \<in> set xs" for z
  proof -
    have "\<bar>w - z\<bar> \<le> 99" if "w \<in> set xs" for w
      using assms(1) z that by (auto simp: abs_le_iff; fastforce)
    then have "\<forall>w \<in> set xs. \<bar>w - z\<bar> \<le> 99" by blast
    then show ?thesis by (simp add: par_def dx_sqr_checked)
  qed
  have "prod_l (par dx_sqr (map Exact xs)) (map Exact xs)
      = concat (map (\<lambda>z. map Exact (map (\<lambda>w. (w - z) * (w - z)) xs)) xs)"
    unfolding prod_l_concat map_map o_def using d by (intro arg_cong[where f = concat] map_cong) simp_all
  also have "\<dots> = map Exact ?sq"
    by (simp add: map_concat o_def)
  finally have p: "prod_l (par dx_sqr (map Exact xs)) (map Exact xs) = map Exact ?sq" .
  have "foldl_l sum_l (map Exact ?sq) (Exact 0) = Exact (0 + sum_list ?sq)"
    using assms(2) by (intro foldl_l_checked) auto
  then show ?thesis
    by (simp add: sigma_dx2_def prod_op_mk p zero_checked_def)
qed

lemma pairs_val:
  "(\<Sum>i\<leftarrow>[0..<100]. \<Sum>j\<leftarrow>[0..<100]. (int j - int i) * (int j - int i)) = 16665000"
  using pair_sum[of "map int [0..<100]"] by (simp add: sum_list_concat' o_def n1 n2)

section \<open>The claims\<close>

text \<open>
  C1. For every \<open>f\<close> and every sequence \<open>xs\<close>, \<^verbatim>\<open>prod(f, xs)\<close> is the concatenation, in
  input order, of \<open>f x\<close> for the elements \<open>x\<close> of \<open>xs\<close>: as a value, and as a call on an
  object holding \<open>xs\<close> anywhere in memory, where \<open>f\<close> is invoked on the elements of
  \<open>xs\<close>, once each and in order. On the empty sequence the result is empty and \<open>f\<close>
  is not invoked: the log of calls is unchanged.
\<close>

theorem C1_prod_concat:
  "prod_l f xs = concat (map f xs)
   \<and> fst (prod_op f (length h) \<lparr>heap = h @ xs # h', calls = c\<rparr>) = concat (map f xs)
   \<and> calls (snd (prod_op f (length h) \<lparr>heap = h @ xs # h', calls = c\<rparr>)) = c @ xs
   \<and> prod_l f [] = []
   \<and> fst (prod_op f (length h) \<lparr>heap = h @ [] # h', calls = c\<rparr>) = []
   \<and> calls (snd (prod_op f (length h) \<lparr>heap = h @ [] # h', calls = c\<rparr>)) = c"
  by (simp add: prod_l_concat prod_op_mk)

text \<open>
  C10. Right identity for every sequence, not only for the singletons the harness
  checks: \<^verbatim>\<open>prod(unit, xs)\<close> is \<open>xs\<close>.
\<close>

theorem C10_right_identity_all: "prod_l unit xs = xs"
  by (induction xs) (simp_all add: unit_def)

text \<open>
  C2. Associativity, for every tested value \<open>x\<close> of the generated sequence, with the
  endofunctors \<open>f\<close> and \<open>g\<close> of the program: \<^verbatim>\<open>prod(f, prod(g, unit(x)))\<close> and
  \<^verbatim>\<open>prod(y -> prod(f, g(y)), unit(x))\<close> are equal lists, which is what \<open>law3\<close>
  computes.
\<close>

theorem C2_associativity:
  "x \<in> set ls_init \<Longrightarrow>
     prod_l f_endo (prod_l g_endo (unit x)) = prod_l (\<lambda>y. prod_l f_endo (g_endo y)) (unit x)
     \<and> law3 x"
  by (simp add: law3_def unit_def g_endo_def)

theorem C2_associativity_witness:
  "(7 :: int64) \<in> set ls_init
   \<and> prod_l f_endo (prod_l g_endo (unit 7)) = prod_l (\<lambda>y. prod_l f_endo (g_endo y)) (unit 7)
   \<and> law3 7"
proof -
  have h: "(7 :: int64) \<in> set ls_init"
    unfolding ls_init_map by (auto simp: image_iff intro!: bexI[of _ 7])
  show ?thesis using h C2_associativity [OF h] by simp
qed

text \<open>
  C3. Left identity, for every tested value \<open>x\<close> of the generated sequence:
  \<^verbatim>\<open>prod(f, unit(x))\<close> equals \<^verbatim>\<open>f(x)\<close>, which is what \<open>law1\<close> computes.
\<close>

theorem C3_left_identity:
  "x \<in> set ls_init \<Longrightarrow> prod_l f_endo (unit x) = f_endo x \<and> law1 x"
  by (simp add: law1_def unit_def)

theorem C3_left_identity_witness:
  "(12 :: int64) \<in> set ls_init \<and> prod_l f_endo (unit 12) = f_endo 12 \<and> law1 12"
proof -
  have h: "(12 :: int64) \<in> set ls_init"
    unfolding ls_init_map by (auto simp: image_iff intro!: bexI[of _ 12])
  show ?thesis using h C3_left_identity [OF h] by simp
qed

text \<open>
  C4. Right identity, for every tested value \<open>x\<close> of the generated sequence:
  \<^verbatim>\<open>prod(unit, unit(x))\<close> equals \<^verbatim>\<open>unit(x)\<close>; \<open>law2\<close> compares it with the
  one-element list of \<open>x\<close>.
\<close>

theorem C4_right_identity:
  "x \<in> set ls_init \<Longrightarrow> prod_l unit (unit x) = unit x \<and> law2 x"
  by (simp add: law2_def unit_def)

theorem C4_right_identity_witness:
  "(99 :: int64) \<in> set ls_init \<and> prod_l unit (unit (99 :: int64)) = unit 99 \<and> law2 99"
proof -
  have h: "(99 :: int64) \<in> set ls_init"
    unfolding ls_init_map by (auto simp: image_iff intro!: bexI[of _ 99])
  show ?thesis using h C4_right_identity [OF h] by simp
qed



text \<open>
  C6. The claim is that \<^verbatim>\<open>prod\<close> consumes its input sequence. \<^verbatim>\<open>prod\<close> takes the
  sequence by value; called on a named object, here one holding 1, 2, 3, it leaves
  that object as it was.
\<close>

theorem C6_counterexample:
  "prod_op g_endo 0 \<lparr>heap = [ [1, 2, 3] ], calls = []\<rparr>
     = ([2, 4, 6], \<lparr>heap = [ [1, 2, 3] ], calls = [1, 2, 3]\<rparr>)"
  by (simp add: prod_op_mk g_endo_def unit_def)

text \<open>
  C6, as the program has it. A call of \<^verbatim>\<open>prod\<close> on a sequence object works on a copy
  of it and leaves every object of the caller unchanged, the sequence itself included,
  wherever it lies in memory; so does each statement of the demonstration, for any
  sequence \<open>xs\<close> in the place of \<open>ls\<close>; and when \<^verbatim>\<open>main\<close> returns \<open>ls\<close> still holds the
  generated sequence.
\<close>

theorem C6_prod_by_value:
  "heap (snd (prod_op f (length h) \<lparr>heap = h @ xs # h', calls = c\<rparr>)) = h @ xs # h'
   \<and> heap (snd (demo_doubles \<lparr>heap = xs # h', calls = c\<rparr>)) = xs # h'
   \<and> heap (snd (demo_squares \<lparr>heap = xs # h', calls = c\<rparr>)) = xs # h'
   \<and> heap (snd (demo_pairs \<lparr>heap = xs # h', calls = c\<rparr>)) = xs # h'
   \<and> heap (snd main) = [ls_init]"
  by (simp add: prod_op_mk demo_doubles_def check_doubles_def demo_squares_def check_squares_def
      demo_pairs_def check_pairs_def sigma_squares_val sigma_sqr_val sigma_dx2_val
      main_def main_from_def mem_init_def demo_init)

text \<open>
  C7. \<^verbatim>\<open>fmap(f, xs)\<close> is the element-wise mapping of \<open>f\<close> over \<open>xs\<close>: the same length,
  and at every position \<open>i\<close> the image under \<open>f\<close> of the element of \<open>xs\<close> there.
\<close>

theorem C7_fmap_elementwise:
  "fmap f xs = map f xs
   \<and> length (fmap f xs) = length xs
   \<and> (\<forall>i < length xs. fmap f xs ! i = f (xs ! i))"
  by (simp add: fmap_map)

theorem C7_fmap_elementwise_witness:
  "fmap (\<lambda>x. x * x) [3, 1, 4 :: int] = map (\<lambda>x. x * x) [3, 1, 4]
   \<and> length (fmap (\<lambda>x. x * x) [3, 1, 4 :: int]) = length [3, 1, 4 :: int]
   \<and> (2 :: nat) < length [3, 1, 4 :: int]
   \<and> fmap (\<lambda>x. x * x) [3, 1, 4 :: int] ! 2 = (\<lambda>x. x * x) ([3, 1, 4] ! 2)"
  using C7_fmap_elementwise [of "\<lambda>x. x * x" "[3, 1, 4 :: int]"] by simp

text \<open>
  C8. For the generated sequence 0..99 the third check of the demonstration is true,
  and nothing overflows on the way. Run in the checked arithmetic, the sum of squares,
  the square of the sum and the sum over all pairs of the squared differences come
  out exact, never as the overflow mark, and equal to the signed values of the 64-bit
  results; these are the sums over the integers; the unsigned left-hand side of the
  comparison is their exact combination; and over the integers the identity
  \<open>n \<Sum>x\<^sup>2 - (\<Sum>x)\<^sup>2 = \<Sum>\<Sum>(x\<^sub>i - x\<^sub>j)\<^sup>2 / 2\<close> holds for them.
\<close>

theorem C8_pairwise_identity:
  "fst (check_pairs mem_init)
   \<and> fst (sigma_squares 0 mem_checked) = Exact (sint (fst (sigma_squares 0 mem_init)))
   \<and> fst (sigma_sqr 0 mem_checked) = Exact (sint (fst (sigma_sqr 0 mem_init)))
   \<and> fst (sigma_dx2 0 mem_checked) = Exact (sint (fst (sigma_dx2 0 mem_init)))
   \<and> sint (fst (sigma_squares 0 mem_init)) = (\<Sum>i\<leftarrow>[0..<100]. int i * int i)
   \<and> sint (fst (sigma_sqr 0 mem_init)) = (\<Sum>i\<leftarrow>[0..<100]. int i) * (\<Sum>i\<leftarrow>[0..<100]. int i)
   \<and> sint (fst (sigma_dx2 0 mem_init))
       = (\<Sum>i\<leftarrow>[0..<100]. \<Sum>j\<leftarrow>[0..<100]. (int j - int i) * (int j - int i))
   \<and> uint (size_l ls_init * fst (sigma_squares 0 mem_init) - fst (sigma_sqr 0 mem_init))
       = 100 * (\<Sum>i\<leftarrow>[0..<100]. int i * int i) - (\<Sum>i\<leftarrow>[0..<100]. int i) * (\<Sum>i\<leftarrow>[0..<100]. int i)
   \<and> 100 * (\<Sum>i\<leftarrow>[0..<100]. int i * int i) - (\<Sum>i\<leftarrow>[0..<100]. int i) * (\<Sum>i\<leftarrow>[0..<100]. int i)
       = (\<Sum>i\<leftarrow>[0..<100]. \<Sum>j\<leftarrow>[0..<100]. (int j - int i) * (int j - int i)) div 2"
proof -
  let ?xs = "map int [0..<100]"
  have b: "\<forall>x \<in> set ?xs. 0 \<le> x \<and> x \<le> 99" by auto
  then have b': "\<forall>x \<in> set ?xs. \<bar>x\<bar> \<le> 99" by auto
  have c1: "fst (sigma_squares 0 mem_checked) = Exact 328350"
    unfolding mem_checked_map using sigma_squares_checked[OF b'] by (simp add: o_def n1)
  have c2: "fst (sigma_sqr 0 mem_checked) = Exact 24502500"
    unfolding mem_checked_map using sigma_sqr_checked[of ?xs] by (simp add: o_def n2)
  have c3: "fst (sigma_dx2 0 mem_checked) = Exact 16665000"
    unfolding mem_checked_map using sigma_dx2_checked[OF b]
    by (simp add: o_def sum_list_concat' pairs_val)
  show ?thesis
    by (simp add: c1 c2 c3 mem_init_def check_pairs_init sigma_squares_val sigma_sqr_val
        sigma_dx2_val w1 w2 size_ls_init n1 n2 pairs_val)
qed

text \<open>
  C9. \<^verbatim>\<open>main\<close> returns 0, the success status, whatever the value \<open>b\<close> of the law
  check and whatever sequence the memory \<open>m\<close> holds, hence whatever the arithmetic
  checks give: every function of the model is total, and the only value returned is
  that of \<^verbatim>\<open>return {};\<close>. So it is for the program itself, and for a run from the
  \<^verbatim>\<open>if\<close> on with a false condition and the one-element sequence 5, where the first
  two arithmetic checks fail: the failures are in the printed text only.
\<close>

theorem C9_exit_status:
  "exit_code (fst (main_from b m)) = 0
   \<and> exit_code (fst main) = 0
   \<and> fst (main_from False \<lparr>heap = [ [5] ], calls = []\<rparr>)
       = \<lparr>printed =
            [(''Sum of doubles of integer sequence 0,1,2,3,...,%d test: %s\<newline>'',
               [ArgD 0, ArgS ''false'']),
             (''Sum of squares of integer sequence 0,1,2,3,...,%d test: %s\<newline>'',
               [ArgD 0, ArgS ''false'']),
             (''Sum of squares vs square of sums (provided no overflow): %s\<newline>\<newline>'',
               [ArgS ''true''])],
          exit_code = 0\<rparr>"
proof -
  have "exit_code (fst (main_from b m)) = 0" for b m
    by (simp add: main_from_def Let_def split: prod.splits)
  moreover have "fst (demo \<lparr>heap = [ [5] ], calls = []\<rparr>)
       = [(''Sum of doubles of integer sequence 0,1,2,3,...,%d test: %s\<newline>'',
               [ArgD 0, ArgS ''false'']),
          (''Sum of squares of integer sequence 0,1,2,3,...,%d test: %s\<newline>'',
               [ArgD 0, ArgS ''false'']),
          (''Sum of squares vs square of sums (provided no overflow): %s\<newline>\<newline>'',
               [ArgS ''true''])]"
    by (simp add: demo_def demo_doubles_def demo_squares_def demo_pairs_def check_doubles_def
        check_squares_def check_pairs_def prod_op_mk sigma_squares_val sigma_sqr_val
        sigma_dx2_val g_endo_def f_endo_def unit_def sum_l_def size_l_def sn1_def sn2_def
        sdiv64_def)
  ultimately show ?thesis
    by (simp add: main_def main_from_def case_prod_beta)
qed

end
